theory Spec2Isabelle
  imports Main "HOL-Library.Sublist"
begin

section \<open>Python strings\<close>

text \<open>
  A Python \<open>str\<close> is a sequence of Unicode code points, and \<open>len\<close> counts code points.
  A string of the model is the list of its code points; \<open>ustr\<close> turns a literal into one.
\<close>

type_synonym ustring = "nat list"

definition ustr :: "string \<Rightarrow> ustring" where
  "ustr s = map of_char s"

text \<open>
  The characters \<open>str.strip()\<close> removes when it is called without an argument: the code
  points Python classifies as whitespace.
\<close>

definition is_space :: "nat \<Rightarrow> bool" where
  "is_space c =
     (c \<in> {9, 10, 11, 12, 13, 28, 29, 30, 31, 32, 133, 160, 5760,
            8232, 8233, 8239, 8287, 12288}
      \<or> (8192 \<le> c \<and> c \<le> 8202))"

text \<open>\<open>s.strip()\<close>\<close>

definition str_strip :: "ustring \<Rightarrow> ustring" where
  "str_strip s = rev (dropWhile is_space (rev (dropWhile is_space s)))"

text \<open>\<open>sub in s\<close> on strings: \<open>sub\<close> occurs in \<open>s\<close> as a contiguous run.\<close>

definition str_contains :: "ustring \<Rightarrow> ustring \<Rightarrow> bool" where
  "str_contains sub s = sublist sub s"

text \<open>
  \<open>s.split(sep)\<close>: the pieces between the non-overlapping occurrences of \<open>sep\<close>, found
  from the left. Python raises ValueError for an empty separator; every call of the source
  passes a non-empty literal, and the model returns \<open>[s]\<close> there. The result is never the
  empty list, so \<open>[0]\<close> on it is \<open>hd\<close>.
\<close>

function str_split :: "ustring \<Rightarrow> ustring \<Rightarrow> ustring list" where
  "str_split sep s =
     (if sep = [] then [s]
      else if s = [] then [[]]
      else if prefix sep s then [] # str_split sep (drop (length sep) s)
      else (case str_split sep (tl s) of
              [] \<Rightarrow> [[hd s]]
            | w # ws \<Rightarrow> (hd s # w) # ws))"
  by pat_completeness auto
termination
  by (relation "measure (\<lambda>(sep, s). length s)") auto

declare str_split.simps [simp del]

text \<open>\<open>sep.join(xs)\<close>\<close>

fun str_join :: "ustring \<Rightarrow> ustring list \<Rightarrow> ustring" where
  "str_join sep [] = []"
| "str_join sep [x] = x"
| "str_join sep (x # y # ys) = x @ sep @ str_join sep (y # ys)"

text \<open>
  \<open>xs[:n]\<close> for an integer \<open>n\<close>: the first \<open>n\<close> elements, and for a negative \<open>n\<close> all
  but the last \<open>-n\<close>.
\<close>

definition slice_to :: "int \<Rightarrow> 'a list \<Rightarrow> 'a list" where
  "slice_to n xs =
     (if 0 \<le> n then take (nat n) xs else take (length xs - nat (- n)) xs)"

text \<open>\<open>s.split()\<close> without a separator: the maximal runs of non-whitespace characters.\<close>

fun split_ws_aux :: "ustring \<Rightarrow> ustring \<Rightarrow> ustring list" where
  "split_ws_aux cur [] = (if cur = [] then [] else [cur])"
| "split_ws_aux cur (c # cs) =
     (if is_space c
      then (if cur = [] then split_ws_aux [] cs else cur # split_ws_aux [] cs)
      else split_ws_aux (cur @ [c]) cs)"

definition str_split_ws :: "ustring \<Rightarrow> ustring list" where
  "str_split_ws s = split_ws_aux [] s"

text \<open>\<open>str(n)\<close> for an integer: decimal digits, with a minus sign when negative.\<close>

fun digits :: "nat \<Rightarrow> ustring" where
  "digits n = (if n < 10 then [48 + n] else digits (n div 10) @ [48 + n mod 10])"

declare digits.simps [simp del]

definition str_int :: "int \<Rightarrow> ustring" where
  "str_int n = (if n < 0 then 45 # digits (nat (- n)) else digits (nat n))"


section \<open>Configuration (config.py)\<close>

text \<open>The settings the modelled code reads from the global \<open>config\<close> object.\<close>

record config =
  min_comment_score :: int
  default_comment_limit :: int
  story_min_words :: int
  story_max_words :: int


section \<open>Reddit scraper (reddit\_scraper.py)\<close>

definition BOT_ACCOUNTS :: "ustring set" where
  "BOT_ACCOUNTS = set (map ustr
     [''AutoModerator'', ''RemindMeBot'', ''WikiTextBot'', ''TotesMessenger'',
      ''GoodBot_BadBot'', ''B0tRank'', ''RepostSleuthBot''])"

text \<open>
  What the Reddit client library hands to the scraper: a submission and a comment of a
  submission's comment forest. An author that was deleted is \<open>None\<close>, and so is a missing
  body. Timestamps are seconds since the epoch; the conversion to a local \<open>datetime\<close> is
  left out.
\<close>

record submission =
  sub_id :: ustring
  sub_title :: ustring
  sub_author :: "ustring option"
  sub_selftext :: ustring
  sub_score :: int
  sub_created_utc :: int
  sub_url :: ustring
  sub_num_comments :: int

record praw_comment =
  pc_id :: ustring
  pc_body :: "ustring option"
  pc_author :: "ustring option"
  pc_score :: int
  pc_created_utc :: int
  pc_parent_id :: ustring

text \<open>The dataclasses \<open>RedditPost\<close> and \<open>RedditComment\<close>.\<close>

record RedditPost =
  post_id :: ustring
  post_title :: ustring
  post_author :: ustring
  post_score :: int
  post_created_utc :: int
  post_subreddit :: ustring
  post_url :: ustring
  post_num_comments :: int

record RedditComment =
  comment_id :: ustring
  comment_body :: ustring
  comment_author :: ustring
  comment_score :: int
  comment_created_utc :: int
  comment_is_top_level :: bool

text \<open>
  \<open>RedditScraper.test_connection\<close>. The argument is what iterating
  \<open>self.reddit.front.hot(limit=1)\<close> gives: an exception, or the listing. The result is the
  Python value returned: \<open>Some b\<close> for the boolean \<open>b\<close>, and \<open>None\<close> for Python's \<open>None\<close>,
  which a function returns when its body ends without a \<open>return\<close>.
\<close>

fun test_connection :: "'e + submission list \<Rightarrow> bool option" where
  "test_connection (Inl e) = Some False"
| "test_connection (Inr (s # rest)) = Some True"
| "test_connection (Inr []) = None"

text \<open>
  \<open>RedditScraper.get_top_posts\<close>; \<open>listing\<close> is the result of
  \<open>subreddit.top(time_filter=..., limit=...)\<close>.
\<close>

definition to_post :: "ustring \<Rightarrow> submission \<Rightarrow> RedditPost" where
  "to_post subreddit_name s =
     \<lparr> post_id = sub_id s,
       post_title = sub_title s,
       post_author = (case sub_author s of Some a \<Rightarrow> a | None \<Rightarrow> ustr ''[deleted]''),
       post_score = sub_score s,
       post_created_utc = sub_created_utc s,
       post_subreddit = subreddit_name,
       post_url = sub_url s,
       post_num_comments = sub_num_comments s \<rparr>"

definition get_top_posts ::
  "(ustring \<Rightarrow> ustring \<Rightarrow> int \<Rightarrow> 'e + submission list)
     \<Rightarrow> ustring \<Rightarrow> int \<Rightarrow> ustring \<Rightarrow> 'e + RedditPost list" where
  "get_top_posts listing subreddit_name limit time_filter =
     (case listing subreddit_name time_filter limit of
        Inl e \<Rightarrow> Inl e
      | Inr subs \<Rightarrow>
          Inr (map (to_post subreddit_name)
                 (filter (\<lambda>s. \<not> (sub_author s = None \<or> sub_selftext s = ustr ''[removed]''))
                    subs)))"

text \<open>\<open>RedditScraper._is_valid_comment\<close>\<close>

definition is_valid_comment :: "config \<Rightarrow> praw_comment \<Rightarrow> bool" where
  "is_valid_comment cfg c =
     (case pc_author c of
        None \<Rightarrow> False
      | Some author \<Rightarrow>
          (case pc_body c of
             None \<Rightarrow> False
           | Some body \<Rightarrow>
               if body = ustr ''[removed]'' \<or> body = ustr ''[deleted]'' then False
               else if author \<in> BOT_ACCOUNTS then False
               else if pc_score c < min_comment_score cfg then False
               else if length (str_strip body) < 20 then False
               else True))"

text \<open>\<open>RedditScraper._clean_comment_body\<close>\<close>

definition clean_comment_body :: "ustring \<Rightarrow> ustring" where
  "clean_comment_body body =
     (let cleaned = str_strip body;
          cleaned =
            (if str_contains (ustr ''EDIT:'') cleaned \<or> str_contains (ustr ''Edit:'') cleaned
             then str_strip (hd (str_split (ustr ''Edit:'')
                                   (hd (str_split (ustr ''EDIT:'') cleaned))))
             else cleaned);
          cleaned =
            str_join (ustr [CHR 0x0A])
              (map str_strip
                 (filter (\<lambda>line. str_strip line \<noteq> [])
                    (str_split (ustr [CHR 0x0A]) cleaned)))
      in if length cleaned > 1000 then slice_to 1000 cleaned @ ustr ''...'' else cleaned)"

text \<open>
  \<open>RedditScraper.get_top_comments\<close>; \<open>forest\<close> is the result of fetching the submission
  and flattening its comment forest (\<open>submission.comments.list()\<close> after
  \<open>replace_more(limit=0)\<close>), or the exception that raised. \<open>list.sort\<close> is stable, also
  with \<open>reverse=True\<close>: comments of equal score keep their order. Sorting on the negated
  score with the stable \<open>sort_key\<close> is that order. Only comments that passed
  \<open>_is_valid_comment\<close> are converted, so the author and the body are present there
  (\<open>str(None)\<close> is the text \<open>None\<close>; cleaning a missing body would raise).
\<close>

definition sort_by_score_desc :: "praw_comment list \<Rightarrow> praw_comment list" where
  "sort_by_score_desc cs = sort_key (\<lambda>c. - pc_score c) cs"

definition to_comment :: "praw_comment \<Rightarrow> RedditComment" where
  "to_comment c =
     \<lparr> comment_id = pc_id c,
       comment_body = clean_comment_body (case pc_body c of Some b \<Rightarrow> b | None \<Rightarrow> []),
       comment_author = (case pc_author c of Some a \<Rightarrow> a | None \<Rightarrow> ustr ''None''),
       comment_score = pc_score c,
       comment_created_utc = pc_created_utc c,
       comment_is_top_level = prefix (ustr ''t3_'') (pc_parent_id c) \<rparr>"

definition get_top_comments ::
  "config \<Rightarrow> (ustring \<Rightarrow> 'e + praw_comment list) \<Rightarrow> ustring \<Rightarrow> int
     \<Rightarrow> 'e + RedditComment list" where
  "get_top_comments cfg forest pid limit =
     (case forest pid of
        Inl e \<Rightarrow> Inl e
      | Inr all_comments \<Rightarrow>
          (let valid_comments = filter (is_valid_comment cfg) all_comments;
               valid_comments = sort_by_score_desc valid_comments
           in Inr (map to_comment (slice_to limit valid_comments))))"


section \<open>Prompt builder (prompt\_builder.py)\<close>

record style_info =
  description :: ustring
  prompt_addon :: ustring

text \<open>The dictionary \<open>STORY_STYLES\<close>, in the order of the source.\<close>

definition STORY_STYLES :: "(ustring \<times> style_info) list" where
  "STORY_STYLES =
     [(ustr ''engaging'',
       \<lparr> description = ustr ''A balanced, engaging narrative'',
         prompt_addon = ustr ''Write in an engaging, accessible style that draws the reader in.'' \<rparr>),
      (ustr ''comedy'',
       \<lparr> description = ustr ''Humorous and light-hearted'',
         prompt_addon = ustr ''Write with humor and wit, finding the funny side of the situation.'' \<rparr>),
      (ustr ''drama'',
       \<lparr> description = ustr ''Emotional and character-driven'',
         prompt_addon = ustr ''Create a dramatic narrative focusing on emotions and character development.'' \<rparr>),
      (ustr ''documentary'',
       \<lparr> description = ustr ''Factual and journalistic'',
         prompt_addon = ustr ''Present the story in a documentary style, as if narrating real events.'' \<rparr>),
      (ustr ''wholesome'',
       \<lparr> description = ustr ''Uplifting and positive'',
         prompt_addon = ustr ''Focus on the heartwarming and positive aspects, creating an uplifting narrative.'' \<rparr>),
      (ustr ''thriller'',
       \<lparr> description = ustr ''Suspenseful and tense'',
         prompt_addon = ustr ''Build suspense and tension throughout the narrative.'' \<rparr>)]"

record post_data =
  pd_title :: ustring
  pd_subreddit :: ustring
  pd_score :: int
  pd_num_comments :: int
  pd_comment_count :: int

record StoryPrompt =
  system_message :: ustring
  user_prompt :: ustring
  prompt_post_data :: post_data
  prompt_style :: ustring
  prompt_word_count :: "int \<times> int"

text \<open>
  \<open>x or d\<close> for an optional integer \<open>x\<close>: the default \<open>d\<close> when \<open>x\<close> is \<open>None\<close> or zero.
\<close>

definition int_or :: "int option \<Rightarrow> int \<Rightarrow> int" where
  "int_or x d = (case x of None \<Rightarrow> d | Some n \<Rightarrow> if n = 0 then d else n)"

text \<open>
  \<open>PromptBuilder._build_system_message\<close>. \<open>self.styles[style]\<close> raises KeyError for a
  style outside the table; \<open>build_story_prompt\<close> only passes a style of the table, so that
  branch contributes nothing here.
\<close>

definition build_system_message :: "ustring \<Rightarrow> ustring" where
  "build_system_message style =
     ustr ''You are a creative storyteller who transforms Reddit posts and comments '' @
     ustr ''into engaging narrative stories. You excel at weaving multiple perspectives '' @
     ustr ''into cohesive tales while maintaining the essence of the original content. '' @
     (case map_of STORY_STYLES style of Some info \<Rightarrow> prompt_addon info | None \<Rightarrow> [])"

text \<open>
  The loop of \<open>_build_user_prompt\<close> that appends the numbered comments; \<open>i\<close> is the number
  of the first comment of the list.
\<close>

fun add_comments :: "ustring \<Rightarrow> int \<Rightarrow> RedditComment list \<Rightarrow> ustring" where
  "add_comments prompt i [] = prompt"
| "add_comments prompt i (comment # rest) =
     (let comment_text = comment_body comment;
          comment_text =
            (if length comment_text > 500 then slice_to 500 comment_text @ ustr ''...''
             else comment_text)
      in add_comments (prompt @ [10] @ str_int i @ ustr ''. '' @ comment_text @ [10])
           (i + 1) rest)"

text \<open>
  \<open>PromptBuilder._build_user_prompt\<close>. The code point 10 is the newline and 34 the double
  quote of the template.
\<close>

definition build_user_prompt ::
  "RedditPost \<Rightarrow> RedditComment list \<Rightarrow> ustring \<Rightarrow> int \<Rightarrow> int \<Rightarrow> ustring" where
  "build_user_prompt post comments style min_words max_words =
     (let prompt =
            ustr ''Transform this Reddit post and its top comments into a '' @ style @
            ustr '' story.'' @ [10, 10] @
            ustr ''**Reddit Post from r/'' @ post_subreddit post @ ustr '':**'' @ [10] @
            [34] @ post_title post @ [34] @ [10, 10] @
            ustr ''**Top Comments from the community:**'' @ [10];
          prompt = add_comments prompt 1 comments
      in prompt @ [10, 10] @
         ustr ''**Instructions:**'' @ [10] @
         ustr ''- Create a cohesive narrative that naturally incorporates perspectives from all comments'' @ [10] @
         ustr ''- The story should flow smoothly, not just list the comments'' @ [10] @
         ustr ''- Maintain the spirit and tone of the original content'' @ [10] @
         ustr ''- Write in third person unless first person serves the narrative better'' @ [10] @
         ustr ''- Length: '' @ str_int min_words @ ustr ''-'' @ str_int max_words @
         ustr '' words'' @ [10] @
         ustr ''- Style: '' @
         (case map_of STORY_STYLES style of Some info \<Rightarrow> description info | None \<Rightarrow> []) @
         [10, 10] @
         ustr ''Begin the story:'')"

text \<open>\<open>PromptBuilder.build_story_prompt\<close>\<close>

definition build_story_prompt ::
  "config \<Rightarrow> RedditPost \<Rightarrow> RedditComment list \<Rightarrow> ustring \<Rightarrow> int option \<Rightarrow> int option
     \<Rightarrow> StoryPrompt" where
  "build_story_prompt cfg post comments style min_words max_words =
     (let min_words = int_or min_words (story_min_words cfg);
          max_words = int_or max_words (story_max_words cfg);
          style = (if map_of STORY_STYLES style = None then ustr ''engaging'' else style)
      in \<lparr> system_message = build_system_message style,
           user_prompt = build_user_prompt post comments style min_words max_words,
           prompt_post_data =
             \<lparr> pd_title = post_title post,
               pd_subreddit = post_subreddit post,
               pd_score = post_score post,
               pd_num_comments = post_num_comments post,
               pd_comment_count = int (length comments) \<rparr>,
           prompt_style = style,
           prompt_word_count = (min_words, max_words) \<rparr>)"


section \<open>AI client (ai\_client.py)\<close>

text \<open>
  The three provider classes. \<open>AIClient._initialize_provider\<close> builds the provider that
  \<open>provider_name\<close> names, or raises; a client that exists is one of the three.
\<close>

datatype provider = OpenAIProvider | AnthropicProvider | BedrockProvider

fun provider_name :: "provider \<Rightarrow> ustring" where
  "provider_name OpenAIProvider = ustr ''openai''"
| "provider_name AnthropicProvider = ustr ''anthropic''"
| "provider_name BedrockProvider = ustr ''bedrock''"

text \<open>
  A request as a provider sends it to its remote service: the model, the messages as pairs
  of role and content, and the token ceiling. The sampling parameters are constants of the
  source (temperature 0.8, top\_p 0.9) and are left out.
\<close>

record ai_request =
  req_provider :: provider
  req_model :: ustring
  req_messages :: "(ustring \<times> ustring) list"
  req_max_tokens :: int

text \<open>
  The world a run acts on: the requests sent to the generation service so far, and the
  number of times the clock was read.
\<close>

record world =
  sent :: "ai_request list"
  clock_reads :: nat

text \<open>
  The surroundings of a run: what the Reddit listing and the comment forest of a post
  answer, what the generation service answers to a request (the text of the first choice
  or content block, or the exception raised), and the clock (\<open>datetime.now()\<close>, in
  microseconds since the epoch, by the number of the reading).
\<close>

record 'e env =
  listing :: "ustring \<Rightarrow> ustring \<Rightarrow> int \<Rightarrow> 'e + submission list"
  forest :: "ustring \<Rightarrow> 'e + praw_comment list"
  completion :: "ai_request \<Rightarrow> 'e + ustring"
  now :: "nat \<Rightarrow> int"

text \<open>The request each \<open>generate_completion\<close> builds from the prompt it is given.\<close>

fun make_request :: "provider \<Rightarrow> ustring \<Rightarrow> int \<Rightarrow> ai_request" where
  "make_request OpenAIProvider prompt max_tokens =
     \<lparr> req_provider = OpenAIProvider,
       req_model = ustr ''gpt-4-turbo-preview'',
       req_messages =
         [(ustr ''system'',
           ustr ''You are a creative storyteller who writes engaging narratives.''),
          (ustr ''user'', prompt)],
       req_max_tokens = max_tokens \<rparr>"
| "make_request AnthropicProvider prompt max_tokens =
     \<lparr> req_provider = AnthropicProvider,
       req_model = ustr ''claude-3-opus-20240229'',
       req_messages = [(ustr ''user'', prompt)],
       req_max_tokens = max_tokens \<rparr>"
| "make_request BedrockProvider prompt max_tokens =
     \<lparr> req_provider = BedrockProvider,
       req_model = ustr ''anthropic.claude-3-sonnet-20240229-v1:0'',
       req_messages = [(ustr ''user'', prompt)],
       req_max_tokens = max_tokens \<rparr>"

text \<open>
  \<open>generate_completion\<close> of the three providers: one request is sent; an exception of the
  service is logged and raised again, and a text is returned stripped.
\<close>

definition generate_completion ::
  "'e env \<Rightarrow> provider \<Rightarrow> ustring \<Rightarrow> int \<Rightarrow> world \<Rightarrow> ('e + ustring) \<times> world" where
  "generate_completion env p prompt max_tokens w =
     (let request = make_request p prompt max_tokens;
          w = w\<lparr>sent := sent w @ [request]\<rparr>
      in case completion env request of
           Inl e \<Rightarrow> (Inl e, w)
         | Inr text \<Rightarrow> (Inr (str_strip text), w))"

text \<open>\<open>AIClient.generate_story\<close>\<close>

definition generate_story ::
  "'e env \<Rightarrow> provider \<Rightarrow> ustring \<Rightarrow> int \<Rightarrow> world \<Rightarrow> ('e + ustring) \<times> world" where
  "generate_story env client prompt max_tokens w =
     generate_completion env client prompt max_tokens w"


section \<open>Story generator (story\_generator.py)\<close>

record source_post_info =
  sp_id :: ustring
  sp_title :: ustring
  sp_author :: ustring
  sp_score :: int
  sp_subreddit :: ustring
  sp_url :: ustring
  sp_num_comments :: int

record source_comment_info =
  sc_id :: ustring
  sc_author :: ustring
  sc_score :: int
  sc_preview :: ustring

text \<open>
  The dataclass \<open>GeneratedStory\<close>. \<open>generation_time\<close> is the difference of two clock
  readings and \<open>created_at\<close> a clock reading, both in microseconds.
\<close>

record GeneratedStory =
  story_id :: ustring
  story_title :: ustring
  story_content :: ustring
  story_style :: ustring
  story_word_count :: int
  source_post :: source_post_info
  source_comments :: "source_comment_info list"
  generation_time :: int
  created_at :: int
  ai_provider :: ustring

text \<open>\<open>StoryGenerator._generate_story_title\<close>, with its dictionary \<open>style_prefix\<close>.\<close>

definition style_prefix :: "(ustring \<times> ustring) list" where
  "style_prefix =
     [(ustr ''comedy'', ustr ''The Hilarious Tale of''),
      (ustr ''drama'', ustr ''The Dramatic Story of''),
      (ustr ''documentary'', ustr ''The True Account of''),
      (ustr ''wholesome'', ustr ''The Heartwarming Story of''),
      (ustr ''thriller'', ustr ''The Suspenseful Tale of''),
      (ustr ''engaging'', ustr ''The Story of'')]"

definition generate_story_title :: "ustring \<Rightarrow> ustring \<Rightarrow> ustring" where
  "generate_story_title title style =
     (let prefix_text =
            (case map_of style_prefix style of Some p \<Rightarrow> p | None \<Rightarrow> ustr ''The Story of'')
      in if suffix (ustr ''?'') title
         then (let title_base = slice_to (- 1) title
               in prefix_text @ ustr '' '' @ title_base)
         else prefix_text @ ustr '': '' @ title)"

text \<open>
  \<open>hasattr(provider, 'client') and hasattr(provider.client, 'chat')\<close>: of the three
  client libraries only the OpenAI client has a \<open>chat\<close> attribute.
\<close>

fun has_chat_client :: "provider \<Rightarrow> bool" where
  "has_chat_client OpenAIProvider = True"
| "has_chat_client AnthropicProvider = False"
| "has_chat_client BedrockProvider = False"

text \<open>\<open>int(datetime.timestamp())\<close>: whole seconds, rounded towards zero.\<close>

definition epoch_seconds :: "int \<Rightarrow> int" where
  "epoch_seconds t = (if 0 \<le> t then t div 1000000 else - ((- t) div 1000000))"

definition post_snapshot :: "RedditPost \<Rightarrow> source_post_info" where
  "post_snapshot post =
     \<lparr> sp_id = post_id post,
       sp_title = post_title post,
       sp_author = post_author post,
       sp_score = post_score post,
       sp_subreddit = post_subreddit post,
       sp_url = post_url post,
       sp_num_comments = post_num_comments post \<rparr>"

definition comment_preview :: "RedditComment \<Rightarrow> source_comment_info" where
  "comment_preview comment =
     \<lparr> sc_id = comment_id comment,
       sc_author = comment_author comment,
       sc_score = comment_score comment,
       sc_preview =
         (if length (comment_body comment) > 100
          then slice_to 100 (comment_body comment) @ ustr ''...''
          else comment_body comment) \<rparr>"

text \<open>
  The text \<open>generate_from_post\<close> hands to \<open>generate_story\<close>: the user prompt alone for a
  client with a \<open>chat\<close> attribute, and otherwise the system message, a blank line and the
  user prompt.
\<close>

definition prompt_text :: "provider \<Rightarrow> StoryPrompt \<Rightarrow> ustring" where
  "prompt_text client prompt =
     (if has_chat_client client then user_prompt prompt
      else system_message prompt @ [10, 10] @ user_prompt prompt)"

text \<open>
  The request a call of \<open>generate_from_post\<close> sends: \<open>generate_story\<close> is called with
  the prompt text and \<open>max_tokens=1500\<close>.
\<close>

definition story_request ::
  "provider \<Rightarrow> config \<Rightarrow> RedditPost \<Rightarrow> RedditComment list \<Rightarrow> ustring
     \<Rightarrow> int option \<Rightarrow> int option \<Rightarrow> ai_request" where
  "story_request client cfg post comments style min_words max_words =
     make_request client
       (prompt_text client (build_story_prompt cfg post comments style min_words max_words))
       1500"

text \<open>
  \<open>StoryGenerator.generate_from_post\<close>. The clock is read four times: at the start, after
  the generation, for the identifier and for \<open>created_at\<close>.
\<close>

definition generate_from_post ::
  "'e env \<Rightarrow> provider \<Rightarrow> config \<Rightarrow> RedditPost \<Rightarrow> RedditComment list \<Rightarrow> ustring
     \<Rightarrow> int option \<Rightarrow> int option \<Rightarrow> world \<Rightarrow> ('e + GeneratedStory) \<times> world" where
  "generate_from_post env client cfg post comments style min_words max_words w =
     (let start_time = now env (clock_reads w);
          w = w\<lparr>clock_reads := clock_reads w + 1\<rparr>;
          prompt = build_story_prompt cfg post comments style min_words max_words
      in case generate_story env client (prompt_text client prompt) 1500 w of
           (Inl e, w) \<Rightarrow> (Inl e, w)
         | (Inr content, w) \<Rightarrow>
             (let elapsed = now env (clock_reads w) - start_time;
                  word_count = int (length (str_split_ws content));
                  new_id = post_id post @ ustr ''_'' @ style @ ustr ''_'' @
                           str_int (epoch_seconds (now env (clock_reads w + 1)));
                  story =
                    \<lparr> story_id = new_id,
                      story_title = generate_story_title (post_title post) style,
                      story_content = content,
                      story_style = style,
                      story_word_count = word_count,
                      source_post = post_snapshot post,
                      source_comments = map comment_preview comments,
                      generation_time = elapsed,
                      created_at = now env (clock_reads w + 2),
                      ai_provider = provider_name client \<rparr>
              in (Inr story, w\<lparr>clock_reads := clock_reads w + 3\<rparr>)))"

text \<open>
  The loop of \<open>generate_from_subreddit\<close> over the fetched posts: \<open>continue\<close> goes on with
  the rest of the posts, and so does the \<open>except\<close> branch after an exception of the comment
  fetch or of the generation.
\<close>

fun process_posts ::
  "'e env \<Rightarrow> provider \<Rightarrow> config \<Rightarrow> ustring \<Rightarrow> RedditPost list \<Rightarrow> GeneratedStory list
     \<Rightarrow> world \<Rightarrow> GeneratedStory list \<times> world" where
  "process_posts env client cfg style [] stories w = (stories, w)"
| "process_posts env client cfg style (post # rest) stories w =
     (if post_num_comments post < 5 then process_posts env client cfg style rest stories w
      else case get_top_comments cfg (forest env) (post_id post) (default_comment_limit cfg) of
             Inl e \<Rightarrow> process_posts env client cfg style rest stories w
           | Inr comments \<Rightarrow>
               if length comments < 3 then process_posts env client cfg style rest stories w
               else (case generate_from_post env client cfg post comments style None None w of
                       (Inl e, w) \<Rightarrow> process_posts env client cfg style rest stories w
                     | (Inr story, w) \<Rightarrow>
                         process_posts env client cfg style rest (stories @ [story]) w))"

text \<open>\<open>StoryGenerator.generate_from_subreddit\<close>\<close>

definition generate_from_subreddit ::
  "'e env \<Rightarrow> provider \<Rightarrow> config \<Rightarrow> ustring \<Rightarrow> int \<Rightarrow> ustring \<Rightarrow> ustring \<Rightarrow> world
     \<Rightarrow> ('e + GeneratedStory list) \<times> world" where
  "generate_from_subreddit env client cfg subreddit post_limit time_filter style w =
     (case get_top_posts (listing env) subreddit post_limit time_filter of
        Inl e \<Rightarrow> (Inl e, w)
      | Inr posts \<Rightarrow>
          (case process_posts env client cfg style posts [] w of
             (stories, w) \<Rightarrow> (Inr stories, w)))"

text \<open>
  A post yields a story in the batch when it has at least 5 comments, its comments are
  fetched and at least 3 of them come back, and the generation service answers the
  request with a text.
\<close>

definition yields_story ::
  "'e env \<Rightarrow> provider \<Rightarrow> config \<Rightarrow> ustring \<Rightarrow> RedditPost \<Rightarrow> bool" where
  "yields_story env client cfg style post =
     (5 \<le> post_num_comments post \<and>
      (case get_top_comments cfg (forest env) (post_id post) (default_comment_limit cfg) of
         Inl e \<Rightarrow> False
       | Inr comments \<Rightarrow>
           3 \<le> length comments \<and>
           (case completion env (story_request client cfg post comments style None None) of
              Inl e \<Rightarrow> False
            | Inr reply \<Rightarrow> True)))"


section \<open>Auxiliary notions for the cleaning transform\<close>

text \<open>
  The steps of \<open>_clean_comment_body\<close> after the first \<open>strip\<close>, named one by one, and the
  shape of their results: a line is tidy when it is not empty, holds no newline and neither
  starts nor ends with whitespace; a text is tidy when it is tidy lines joined by newlines.
\<close>

definition tidy_line :: "ustring \<Rightarrow> bool" where
  "tidy_line l = (l \<noteq> [] \<and> 10 \<notin> set l \<and> \<not> is_space (hd l) \<and> \<not> is_space (last l))"

definition squeeze :: "ustring \<Rightarrow> ustring list" where
  "squeeze s = map str_strip (filter (\<lambda>line. str_strip line \<noteq> []) (str_split [10] s))"

definition remove_edits :: "ustring \<Rightarrow> ustring" where
  "remove_edits c =
     (if str_contains (ustr ''EDIT:'') c \<or> str_contains (ustr ''Edit:'') c
      then str_strip (hd (str_split (ustr ''Edit:'') (hd (str_split (ustr ''EDIT:'') c))))
      else c)"

definition squeeze_lines :: "ustring \<Rightarrow> ustring" where
  "squeeze_lines c = str_join [10] (squeeze c)"

definition truncate :: "ustring \<Rightarrow> ustring" where
  "truncate c = (if length c > 1000 then take 1000 c @ ustr ''...'' else c)"

definition no_marker :: "ustring \<Rightarrow> bool" where
  "no_marker s = (\<not> sublist (ustr ''EDIT:'') s \<and> \<not> sublist (ustr ''Edit:'') s)"

definition tidy :: "ustring \<Rightarrow> bool" where
  "tidy s = (\<exists>ls. s = str_join [10] ls \<and> (\<forall>l\<in>set ls. tidy_line l))"


section \<open>Example data\<close>

definition ex_cfg :: config where
  "ex_cfg = \<lparr> min_comment_score = 10, default_comment_limit = 5,
              story_min_words = 300, story_max_words = 500 \<rparr>"

definition ex_comment :: "ustring \<Rightarrow> ustring \<Rightarrow> int \<Rightarrow> praw_comment" where
  "ex_comment cid body score =
     \<lparr> pc_id = cid, pc_body = Some body, pc_author = Some (ustr ''sleepy_worker''),
       pc_score = score, pc_created_utc = 0, pc_parent_id = ustr ''t3_test123'' \<rparr>"

definition ex_body :: ustring where
  "ex_body = ustr ''I fell asleep during a meeting.''"

text \<open>Three valid comments, fetched in the order of the scores 500, 275, 350.\<close>

definition ex_three :: "praw_comment list" where
  "ex_three = [ex_comment (ustr ''c1'') ex_body 500,
               ex_comment (ustr ''c2'') ex_body 275,
               ex_comment (ustr ''c3'') ex_body 350]"

definition ex_forest :: "ustring \<Rightarrow> ustring + praw_comment list" where
  "ex_forest pid = Inr ex_three"


text \<open>
  A post, three cleaned comments in score order, surroundings whose generation service
  gives the same answer to every request, and the world before any request.
\<close>

definition ex_post :: RedditPost where
  "ex_post =
     \<lparr> post_id = ustr ''test123'',
       post_title = ustr ''What's the most embarrassing thing that happened to you at work?'',
       post_author = ustr ''test_user'',
       post_score = 1500,
       post_created_utc = 0,
       post_subreddit = ustr ''AskReddit'',
       post_url = ustr ''https://reddit.com/r/AskReddit/comments/test123'',
       post_num_comments = 250 \<rparr>"

definition ex_comments :: "RedditComment list" where
  "ex_comments =
     [\<lparr> comment_id = ustr ''c1'', comment_body = ustr ''I fell asleep during a meeting.'',
        comment_author = ustr ''sleepy_worker'', comment_score = 500,
        comment_created_utc = 0, comment_is_top_level = True \<rparr>,
      \<lparr> comment_id = ustr ''c3'', comment_body = ustr ''I forgot I was screen sharing.'',
        comment_author = ustr ''caught_redhanded'', comment_score = 350,
        comment_created_utc = 0, comment_is_top_level = True \<rparr>,
      \<lparr> comment_id = ustr ''c2'', comment_body = ustr ''I sent a love letter to the whole company.'',
        comment_author = ustr ''embarrassed_employee'', comment_score = 275,
        comment_created_utc = 0, comment_is_top_level = True \<rparr>]"

definition ex_env :: "(ustring + ustring) \<Rightarrow> ustring env" where
  "ex_env answer =
     \<lparr> listing = (\<lambda>subreddit time_filter limit. Inr []),
       forest = ex_forest,
       completion = (\<lambda>request. answer),
       now = (\<lambda>n. 1700000000000000 + 1000000 * int n) \<rparr>"

definition ex_world :: world where
  "ex_world = \<lparr> sent = [], clock_reads = 0 \<rparr>"

text \<open>
  Five sampled posts: two with fewer than 5 comments, one whose comment forest holds only
  two valid comments (of the other two, one is too short and one scores below the
  minimum), and two with three valid comments each; the generation service answers every
  request.
\<close>

definition ex_submission :: "ustring \<Rightarrow> int \<Rightarrow> submission" where
  "ex_submission sid n =
     \<lparr> sub_id = sid, sub_title = ustr ''What is your best story?'',
       sub_author = Some (ustr ''test_user''), sub_selftext = [],
       sub_score = 1500, sub_created_utc = 0,
       sub_url = ustr ''https://reddit.com/r/AskReddit/comments/'' @ sid,
       sub_num_comments = n \<rparr>"

definition ex_five :: "submission list" where
  "ex_five = [ex_submission (ustr ''p1'') 3, ex_submission (ustr ''p2'') 4,
              ex_submission (ustr ''p3'') 40, ex_submission (ustr ''p4'') 50,
              ex_submission (ustr ''p5'') 60]"

definition ex_two_valid :: "praw_comment list" where
  "ex_two_valid = [ex_comment (ustr ''d1'') ex_body 500,
                   ex_comment (ustr ''d2'') (ustr ''too short'') 400,
                   ex_comment (ustr ''d3'') ex_body 5,
                   ex_comment (ustr ''d4'') ex_body 275]"

definition ex_batch_env :: "ustring env" where
  "ex_batch_env =
     \<lparr> listing = (\<lambda>subreddit time_filter limit. Inr ex_five),
       forest = (\<lambda>pid. if pid = ustr ''p3'' then Inr ex_two_valid else Inr ex_three),
       completion = (\<lambda>request. Inr (ustr ''Once upon a time at the office.'')),
       now = (\<lambda>n. 1700000000000000 + 1000000 * int n) \<rparr>"

section \<open>Properties of the scraper\<close>


subsection \<open>Evaluating the string functions on concrete text\<close>

lemma str_split_Nil: "sep \<noteq> [] \<Longrightarrow> str_split sep [] = [[]]"
  by (simp add: str_split.simps)

lemma str_split_Cons:
  "sep \<noteq> [] \<Longrightarrow> str_split sep (c # cs) =
     (if prefix sep (c # cs) then [] # str_split sep (drop (length sep) (c # cs))
      else (case str_split sep cs of [] \<Rightarrow> [[c]] | w # ws \<Rightarrow> (c # w) # ws))"
  by (subst str_split.simps) (simp split: list.split)

lemmas eval_defs = str_split_Nil str_split_Cons ustr_def is_space_def str_strip_def
  str_contains_def sublist_Cons_right slice_to_def clean_comment_body_def Let_def

lemmas ex_defs = ex_cfg_def ex_comment_def ex_body_def ex_three_def ex_forest_def

subsection \<open>The validity predicate\<close>

text \<open>
  C2: a comment is valid exactly when its author is present, its body is present and is
  neither the removed marker, the deleted marker nor the empty text, its author is not a
  known bot account, its score is at least the configured minimum, and its trimmed body
  has at least 20 characters. So a score below the minimum makes it invalid, and so does a
  trimmed body of fewer than 20 characters, whatever the score.
\<close>

theorem is_valid_comment_iff:
  "(is_valid_comment cfg c \<longleftrightarrow>
      (\<exists>author body.
         pc_author c = Some author \<and> pc_body c = Some body \<and>
         body \<noteq> ustr ''[removed]'' \<and> body \<noteq> ustr ''[deleted]'' \<and> body \<noteq> [] \<and>
         author \<notin> BOT_ACCOUNTS \<and>
         min_comment_score cfg \<le> pc_score c \<and>
         20 \<le> length (str_strip body))) \<and>
   (pc_score c < min_comment_score cfg \<longrightarrow> \<not> is_valid_comment cfg c) \<and>
   (\<forall>body. pc_body c = Some body \<and> length (str_strip body) < 20
       \<longrightarrow> \<not> is_valid_comment cfg c)"
proof -
  have e: "str_strip [] = []" by (simp add: str_strip_def)
  show ?thesis
    unfolding is_valid_comment_def
    by (cases "pc_author c"; cases "pc_body c") (auto simp: e)
qed

theorem is_valid_comment_iff_witness:
  "pc_score (ex_comment (ustr ''c1'') ex_body 9) < min_comment_score ex_cfg \<and>
   \<not> is_valid_comment ex_cfg (ex_comment (ustr ''c1'') ex_body 9) \<and>
   pc_body (ex_comment (ustr ''c2'') (ustr ''   too short   '') 900)
     = Some (ustr ''   too short   '') \<and>
   length (str_strip (ustr ''   too short   '')) < 20 \<and>
   \<not> is_valid_comment ex_cfg (ex_comment (ustr ''c2'') (ustr ''   too short   '') 900) \<and>
   is_valid_comment ex_cfg (ex_comment (ustr ''c3'') ex_body 10)"
proof -
  have low: "pc_score (ex_comment (ustr ''c1'') ex_body 9) < min_comment_score ex_cfg"
    by (simp add: ex_defs)
  have body: "pc_body (ex_comment (ustr ''c2'') (ustr ''   too short   '') 900)
                = Some (ustr ''   too short   '')"
    by (simp add: ex_defs)
  have short: "length (str_strip (ustr ''   too short   '')) < 20"
    by (simp add: eval_defs)
  have ok: "\<exists>author body.
       pc_author (ex_comment (ustr ''c3'') ex_body 10) = Some author \<and>
       pc_body (ex_comment (ustr ''c3'') ex_body 10) = Some body \<and>
       body \<noteq> ustr ''[removed]'' \<and> body \<noteq> ustr ''[deleted]'' \<and> body \<noteq> [] \<and>
       author \<notin> BOT_ACCOUNTS \<and>
       min_comment_score ex_cfg \<le> pc_score (ex_comment (ustr ''c3'') ex_body 10) \<and>
       20 \<le> length (str_strip body)"
    by (simp add: ex_defs eval_defs BOT_ACCOUNTS_def)
  from low have 1: "\<not> is_valid_comment ex_cfg (ex_comment (ustr ''c1'') ex_body 9)"
    using is_valid_comment_iff [of ex_cfg "ex_comment (ustr ''c1'') ex_body 9"] by blast
  from body short
  have 2: "\<not> is_valid_comment ex_cfg (ex_comment (ustr ''c2'') (ustr ''   too short   '') 900)"
    using is_valid_comment_iff
      [of ex_cfg "ex_comment (ustr ''c2'') (ustr ''   too short   '') 900"] by blast
  from ok have 3: "is_valid_comment ex_cfg (ex_comment (ustr ''c3'') ex_body 10)"
    using is_valid_comment_iff [of ex_cfg "ex_comment (ustr ''c3'') ex_body 10"] by blast
  from low body short 1 2 3 show ?thesis by blast
qed

subsection \<open>The reachability probe\<close>

text \<open>
  C9: when the front-page listing comes back empty and nothing raises, the loop body never
  runs and \<open>test_connection\<close> ends without a \<open>return\<close>: the value is Python's \<open>None\<close>,
  neither \<open>True\<close> nor \<open>False\<close>.
\<close>

theorem test_connection_empty_listing:
  "test_connection (Inr [] :: ustring + submission list) = None \<and>
   test_connection (Inr [] :: ustring + submission list) \<noteq> Some True \<and>
   test_connection (Inr [] :: ustring + submission list) \<noteq> Some False"
  by simp

subsection \<open>Ordering of the fetched comments\<close>








lemma ex_three_valid: "filter (is_valid_comment ex_cfg) ex_three = ex_three"
  by (simp add: is_valid_comment_def ex_defs eval_defs BOT_ACCOUNTS_def)

lemma ex_three_sorted:
  "sort_by_score_desc ex_three =
     [ex_comment (ustr ''c1'') ex_body 500,
      ex_comment (ustr ''c3'') ex_body 350,
      ex_comment (ustr ''c2'') ex_body 275]"
  by (simp add: sort_by_score_desc_def ex_defs)




subsection \<open>Cleaning is idempotent\<close>

text \<open>
  Splitting at a single character and joining with that character undo each other, and
  no piece of such a split holds the character.
\<close>

lemma str_split_nonempty: "str_split sep s \<noteq> []"
  by (induction sep s rule: str_split.induct) (subst str_split.simps, simp split: list.split)

lemma split1_Nil: "str_split [c] [] = [[]]"
  by (simp add: str_split_Nil)

lemma split1_Cons:
  "str_split [c] (x # xs) =
     (if x = c then [] # str_split [c] xs
      else (case str_split [c] xs of [] \<Rightarrow> [[x]] | w # ws \<Rightarrow> (x # w) # ws))"
  by (simp add: str_split_Cons)

lemma split1_lines: "l \<in> set (str_split [c] s) \<Longrightarrow> c \<notin> set l"
proof (induction s arbitrary: l)
  case Nil
  then show ?case by (simp add: split1_Nil)
next
  case (Cons x xs)
  then show ?case
    by (cases "str_split [c] xs") (auto simp: split1_Cons split: if_splits)
qed

lemma str_join_Cons: "zs \<noteq> [] \<Longrightarrow> str_join sep (x # zs) = x @ sep @ str_join sep zs"
  by (cases zs) simp_all

lemma str_join_Cons_Cons: "str_join sep ((x # w) # ws) = x # str_join sep (w # ws)"
  by (cases ws) simp_all

lemma join_split1: "str_join [c] (str_split [c] s) = s"
proof (induction s)
  case Nil
  then show ?case by (simp add: split1_Nil)
next
  case (Cons x xs)
  show ?case
  proof (cases "str_split [c] xs")
    case Nil
    then show ?thesis using str_split_nonempty by blast
  next
    case (Cons w ws)
    with Cons.IH show ?thesis
      by (cases "x = c") (simp_all add: split1_Cons str_join_Cons_Cons)
  qed
qed

lemma split1_no_sep: "c \<notin> set l \<Longrightarrow> str_split [c] l = [l]"
  by (induction l) (auto simp: split1_Nil split1_Cons)

lemma split1_append: "c \<notin> set l \<Longrightarrow> str_split [c] (l @ c # rest) = l # str_split [c] rest"
  by (induction l) (auto simp: split1_Cons)

lemma split1_join:
  "ls \<noteq> [] \<Longrightarrow> \<forall>l\<in>set ls. c \<notin> set l \<Longrightarrow> str_split [c] (str_join [c] ls) = ls"
proof (induction "[c]" ls rule: str_join.induct)
  case 1
  then show ?case by simp
next
  case (2 x)
  then show ?case by (simp add: split1_no_sep)
next
  case (3 x y ys)
  then show ?case by (simp add: split1_append)
qed

text \<open>
  The result of \<open>strip\<close> is a part of its argument; when it is not empty it neither
  starts nor ends with whitespace, and a text of that shape is left as it is.
\<close>

lemma str_strip_sublist: "sublist (str_strip s) s"
proof -
  have "prefix (rev (dropWhile is_space (rev (dropWhile is_space s)))) (dropWhile is_space s)"
    by (metis suffix_dropWhile suffix_to_prefix rev_rev_ident)
  moreover have "suffix (dropWhile is_space s) s"
    by (rule suffix_dropWhile)
  ultimately show ?thesis
    unfolding str_strip_def
    by (meson prefix_imp_sublist suffix_imp_sublist sublist_order.order_trans)
qed

lemma str_strip_id:
  "s \<noteq> [] \<Longrightarrow> \<not> is_space (hd s) \<Longrightarrow> \<not> is_space (last s) \<Longrightarrow> str_strip s = s"
proof -
  assume a: "s \<noteq> []" "\<not> is_space (hd s)" "\<not> is_space (last s)"
  then have 1: "dropWhile is_space s = s"
    by (cases s) simp_all
  from a have "rev s \<noteq> []" "\<not> is_space (hd (rev s))"
    by (simp_all add: hd_rev)
  then have 2: "dropWhile is_space (rev s) = rev s"
    by (cases "rev s") simp_all
  show ?thesis by (simp add: str_strip_def 1 2)
qed

lemma str_strip_ends:
  assumes "str_strip s \<noteq> []"
  shows "\<not> is_space (hd (str_strip s)) \<and> \<not> is_space (last (str_strip s))"
proof -
  let ?t = "dropWhile is_space s"
  let ?u = "dropWhile is_space (rev ?t)"
  have u: "?u \<noteq> []" using assms by (simp add: str_strip_def)
  have t: "?t \<noteq> []"
  proof
    assume "?t = []"
    then have "?u = []" by (simp only: rev.simps dropWhile.simps)
    with u show False by contradiction
  qed
  have hu: "\<not> is_space (hd ?u)" using u by (rule hd_dropWhile)
  have ht: "\<not> is_space (hd ?t)" using t by (rule hd_dropWhile)
  have "last (rev ?t) = hd ?t" using t by (simp add: last_rev)
  moreover have "last ?u = last (rev ?t)"
    using u by (metis suffix_dropWhile last_appendR suffix_def)
  ultimately have "\<not> is_space (last ?u)" using ht by simp
  then show ?thesis using hu u by (simp add: str_strip_def hd_rev last_rev)
qed

text \<open>
  The lines that the blank-line step keeps are tidy, and a text of tidy lines is a fixed
  point of \<open>strip\<close> and of the blank-line step.
\<close>

lemma tidy_line_strip: "tidy_line l \<Longrightarrow> str_strip l = l"
  by (simp add: tidy_line_def str_strip_id)

lemma squeeze_tidy: "l \<in> set (squeeze s) \<Longrightarrow> tidy_line l"
proof -
  assume "l \<in> set (squeeze s)"
  then obtain l0 where l0: "l0 \<in> set (str_split [10] s)" "l = str_strip l0" "str_strip l0 \<noteq> []"
    by (auto simp: squeeze_def)
  from l0(1) have "10 \<notin> set l0" by (rule split1_lines)
  moreover have "set (str_strip l0) \<subseteq> set l0"
    by (rule set_mono_sublist) (rule str_strip_sublist)
  ultimately have "10 \<notin> set l" using l0(2) by auto
  with l0 str_strip_ends [of l0] show ?thesis by (simp add: tidy_line_def)
qed

lemma hd_str_join: "ls \<noteq> [] \<Longrightarrow> hd ls \<noteq> [] \<Longrightarrow> hd (str_join sep ls) = hd (hd ls)"
  by (induction sep ls rule: str_join.induct) simp_all

lemma last_str_join_aux:
  "ls \<noteq> [] \<Longrightarrow> last ls \<noteq> [] \<Longrightarrow>
     str_join sep ls \<noteq> [] \<and> last (str_join sep ls) = last (last ls)"
  by (induction sep ls rule: str_join.induct) (simp_all split: if_splits)

lemma last_str_join:
  "ls \<noteq> [] \<Longrightarrow> last ls \<noteq> [] \<Longrightarrow> last (str_join sep ls) = last (last ls)"
  by (simp add: last_str_join_aux)

lemma str_join_eq_Nil: "ls \<noteq> [] \<Longrightarrow> hd ls \<noteq> [] \<Longrightarrow> str_join sep ls \<noteq> []"
  by (induction sep ls rule: str_join.induct) simp_all

lemma strip_join_tidy:
  assumes "ls \<noteq> []" "\<forall>l\<in>set ls. tidy_line l"
  shows "str_strip (str_join [10] ls) = str_join [10] ls"
proof -
  from assms have h: "tidy_line (hd ls)" and l: "tidy_line (last ls)" by simp_all
  then have "hd ls \<noteq> []" "last ls \<noteq> []" by (simp_all add: tidy_line_def)
  with assms(1) h l show ?thesis
    by (intro str_strip_id) (simp_all add: hd_str_join last_str_join str_join_eq_Nil tidy_line_def)
qed

lemma squeeze_join_tidy:
  assumes "\<forall>l\<in>set ls. tidy_line l"
  shows "str_join [10] (squeeze (str_join [10] ls)) = str_join [10] ls"
proof (cases "ls = []")
  case True
  then show ?thesis by (simp add: squeeze_def split1_Nil str_strip_def)
next
  case False
  from assms have "\<forall>l\<in>set ls. 10 \<notin> set l" by (simp add: tidy_line_def)
  with False have sp: "str_split [10] (str_join [10] ls) = ls" by (rule split1_join)
  from assms have f: "filter (\<lambda>line. str_strip line \<noteq> []) ls = ls"
    by (auto simp: tidy_line_strip tidy_line_def intro!: filter_True)
  from assms have m: "map str_strip ls = ls"
    by (simp add: tidy_line_strip map_idI)
  show ?thesis by (simp add: squeeze_def sp f m)
qed

text \<open>
  The first \<open>n\<close> characters of joined lines are some of the lines joined with a
  prefix of the next one, so the ellipsis is appended to a prefix of a line.
\<close>

lemma take_join:
  "ls \<noteq> [] \<Longrightarrow>
     \<exists>ls' p l rest. ls = ls' @ l # rest \<and> prefix p l \<and>
        take n (str_join [c] ls) = str_join [c] (ls' @ [p])"
proof (induction "[c]" ls arbitrary: n rule: str_join.induct)
  case 1
  then show ?case by simp
next
  case (2 x)
  have "[x] = [] @ x # [] \<and> prefix (take n x) x \<and>
        take n (str_join [c] [x]) = str_join [c] ([] @ [take n x])"
    by (simp add: take_is_prefix)
  then show ?case by blast
next
  case (3 x y ys)
  show ?case
  proof (cases "n \<le> length x")
    case True
    then have "x # y # ys = [] @ x # (y # ys) \<and> prefix (take n x) x \<and>
        take n (str_join [c] (x # y # ys)) = str_join [c] ([] @ [take n x])"
      by (simp add: take_is_prefix)
    then show ?thesis by blast
  next
    case False
    have "\<exists>ls' p l rest. y # ys = ls' @ l # rest \<and> prefix p l \<and>
        take (n - Suc (length x)) (str_join [c] (y # ys)) = str_join [c] (ls' @ [p])"
      by (rule "3.hyps") simp
    then obtain ls' p l rest where
      h: "y # ys = ls' @ l # rest" "prefix p l"
         "take (n - Suc (length x)) (str_join [c] (y # ys)) = str_join [c] (ls' @ [p])"
      by blast
    from False have "take n (str_join [c] (x # y # ys))
          = x @ [c] @ take (n - Suc (length x)) (str_join [c] (y # ys))"
      by (simp add: take_Cons')
    also have "\<dots> = str_join [c] (x # (ls' @ [p]))"
      by (simp add: h(3) str_join_Cons)
    finally have "x # y # ys = (x # ls') @ l # rest \<and> prefix p l \<and>
        take n (str_join [c] (x # y # ys)) = str_join [c] ((x # ls') @ [p])"
      using h by simp
    then show ?thesis by blast
  qed
qed

lemma join_snoc_append: "str_join sep (as @ [b]) @ t = str_join sep (as @ [b @ t])"
proof (induction as)
  case Nil
  then show ?case by simp
next
  case (Cons a as)
  then show ?case by (simp add: str_join_Cons)
qed

text \<open>
  The cleaning transform is the composition of its steps.
\<close>

lemma clean_steps:
  "clean_comment_body body = truncate (squeeze_lines (remove_edits (str_strip body)))"
  by (simp add: clean_comment_body_def Let_def truncate_def squeeze_lines_def squeeze_def
      remove_edits_def slice_to_def ustr_def)

text \<open>
  The first piece of a split is a prefix of the text and does not hold the separator.
\<close>

lemma hd_split_prefix: "prefix (hd (str_split sep s)) s"
proof (induction sep s rule: str_split.induct)
  case (1 sep s)
  show ?case
  proof (cases "sep = [] \<or> s = [] \<or> prefix sep s")
    case True
    then show ?thesis by (subst str_split.simps) auto
  next
    case False
    then obtain x xs where s: "s = x # xs" by (cases s) auto
    from False 1(2) have ih: "prefix (hd (str_split sep (tl s))) (tl s)" by simp
    obtain w ws where w: "str_split sep xs = w # ws"
      using str_split_nonempty [of sep xs] by (cases "str_split sep xs") auto
    from False s w ih show ?thesis
      by (subst str_split.simps) simp
  qed
qed

lemma hd_split_no_sep: "sep \<noteq> [] \<Longrightarrow> \<not> sublist sep (hd (str_split sep s))"
proof (induction sep s rule: str_split.induct)
  case (1 sep s)
  show ?case
  proof (cases "s = [] \<or> prefix sep s")
    case True
    with 1(3) show ?thesis by (subst str_split.simps) auto
  next
    case False
    then obtain x xs where s: "s = x # xs" by (cases s) auto
    from False 1(2,3) have ih: "\<not> sublist sep (hd (str_split sep (tl s)))" by simp
    obtain w ws where w: "str_split sep xs = w # ws"
      using str_split_nonempty [of sep xs] by (cases "str_split sep xs") auto
    have pw: "prefix w xs" using hd_split_prefix [of sep xs] w by simp
    have "\<not> prefix sep (x # w)"
    proof
      assume "prefix sep (x # w)"
      moreover have "prefix (x # w) (x # xs)" using pw by simp
      ultimately have "prefix sep (x # xs)" by (rule prefix_order.order_trans)
      with False s show False by simp
    qed
    with ih s w have "\<not> sublist sep (x # w)" by (simp add: sublist_Cons_right)
    with False s w 1(3) show ?thesis
      by (subst str_split.simps) simp
  qed
qed

text \<open>
  A text without the newline that occurs in joined lines occurs in one of the lines; a
  text that occurs in \<open>p @ t\<close> but not in \<open>p\<close> ends inside \<open>t\<close>.
\<close>

lemma sublist_join_line:
  "sublist m (str_join [c] ls) \<Longrightarrow> c \<notin> set m \<Longrightarrow> m \<noteq> [] \<Longrightarrow> \<exists>l\<in>set ls. sublist m l"
proof (induction "[c]" ls rule: str_join.induct)
  case 1
  then show ?case by simp
next
  case (2 x)
  then show ?case by simp
next
  case (3 x y ys)
  from 3(2) have "sublist m (x @ c # str_join [c] (y # ys))" by simp
  then consider "sublist m x" | "sublist m (c # str_join [c] (y # ys))"
    | m1 m2 where "m = m1 @ m2" "suffix m1 x" "prefix m2 (c # str_join [c] (y # ys))"
    by (auto simp: sublist_append)
  then show ?case
  proof cases
    case 1
    then show ?thesis by simp
  next
    case 2
    then have "prefix m (c # str_join [c] (y # ys)) \<or> sublist m (str_join [c] (y # ys))"
      by (simp add: sublist_Cons_right)
    moreover have "\<not> prefix m (c # str_join [c] (y # ys))"
      using 3(3,4) by (cases m) (auto simp: prefix_Cons)
    ultimately have "sublist m (str_join [c] (y # ys))" by simp
    with 3 show ?thesis by simp
  next
    case 3
    show ?thesis
    proof (cases "m2 = []")
      case True
      with 3 have "sublist m x" by (simp add: suffix_imp_sublist)
      then show ?thesis by simp
    next
      case False
      with 3(3) have "hd m2 = c" by (cases m2) (auto simp: prefix_Cons)
      with False 3(1) have "c \<in> set m" by (cases m2) auto
      with \<open>c \<notin> set m\<close> show ?thesis by simp
    qed
  qed
qed

lemma not_sublist_append:
  assumes "\<not> sublist m p" "m \<noteq> []" "last m \<notin> set t"
  shows "\<not> sublist m (p @ t)"
proof
  assume "sublist m (p @ t)"
  then consider "sublist m p" | "sublist m t"
    | m1 m2 where "m = m1 @ m2" "suffix m1 p" "prefix m2 t"
    by (auto simp: sublist_append)
  then show False
  proof cases
    case 1
    with assms show ?thesis by simp
  next
    case 2
    then have "set m \<subseteq> set t" by (rule set_mono_sublist)
    with assms(2,3) show ?thesis using last_in_set by blast
  next
    case 3
    show ?thesis
    proof (cases "m2 = []")
      case True
      with 3 assms(1) show ?thesis by (simp add: suffix_imp_sublist)
    next
      case False
      with 3(1) have "last m = last m2" by simp
      moreover from False have "last m2 \<in> set m2" by simp
      moreover from 3(3) have "set m2 \<subseteq> set t" by (rule set_mono_prefix)
      ultimately show ?thesis using assms(3) by auto
    qed
  qed
qed

text \<open>
  Neither edit marker holds a newline or ends with a full stop, so no step of the
  cleaning after the removal of the edit notes brings a marker back.
\<close>

lemma marker_facts:
  "ustr ''EDIT:'' \<noteq> []" "ustr ''Edit:'' \<noteq> []"
  "10 \<notin> set (ustr ''EDIT:'')" "10 \<notin> set (ustr ''Edit:'')"
  "last (ustr ''EDIT:'') \<notin> set (ustr ''...'')" "last (ustr ''Edit:'') \<notin> set (ustr ''...'')"
  by (simp_all add: ustr_def)

lemma no_marker_sublist: "no_marker s \<Longrightarrow> sublist t s \<Longrightarrow> no_marker t"
  unfolding no_marker_def by (blast intro: sublist_order.order_trans)

lemma no_marker_remove_edits: "no_marker (remove_edits c)"
proof (cases "str_contains (ustr ''EDIT:'') c \<or> str_contains (ustr ''Edit:'') c")
  case False
  then show ?thesis by (simp add: remove_edits_def no_marker_def str_contains_def)
next
  case True
  let ?h1 = "hd (str_split (ustr ''EDIT:'') c)"
  let ?h2 = "hd (str_split (ustr ''Edit:'') ?h1)"
  have 1: "\<not> sublist (ustr ''EDIT:'') ?h1"
    by (rule hd_split_no_sep) (rule marker_facts)
  have 2: "\<not> sublist (ustr ''Edit:'') ?h2"
    by (rule hd_split_no_sep) (rule marker_facts)
  have "sublist ?h2 ?h1"
    by (rule prefix_imp_sublist) (rule hd_split_prefix)
  with 1 have "\<not> sublist (ustr ''EDIT:'') ?h2"
    by (blast intro: sublist_order.order_trans)
  with 2 have "no_marker ?h2" by (simp add: no_marker_def)
  then have "no_marker (str_strip ?h2)"
    by (rule no_marker_sublist) (rule str_strip_sublist)
  with True show ?thesis by (simp add: remove_edits_def)
qed

lemma remove_edits_id: "no_marker s \<Longrightarrow> remove_edits s = s"
  by (simp add: remove_edits_def no_marker_def str_contains_def)

lemma line_sublist_join: "l \<in> set ls \<Longrightarrow> sublist l (str_join sep ls)"
proof (induction sep ls rule: str_join.induct)
  case (1 sep)
  then show ?case by simp
next
  case (2 sep x)
  then show ?case by simp
next
  case (3 sep x y ys)
  show ?case
  proof (cases "l = x")
    case True
    then show ?thesis by simp
  next
    case False
    with 3 have "sublist l (str_join sep (y # ys))" by simp
    then show ?thesis by (simp add: sublist_append)
  qed
qed

lemma squeeze_line_sublist: "l \<in> set (squeeze y) \<Longrightarrow> sublist l y"
proof -
  assume "l \<in> set (squeeze y)"
  then obtain l0 where l0: "l0 \<in> set (str_split [10] y)" "l = str_strip l0"
    by (auto simp: squeeze_def)
  from l0(1) have "sublist l0 (str_join [10] (str_split [10] y))"
    by (rule line_sublist_join)
  then have "sublist l0 y" by (simp add: join_split1)
  moreover have "sublist l l0" unfolding l0(2) by (rule str_strip_sublist)
  ultimately show ?thesis by (blast intro: sublist_order.order_trans)
qed

lemma not_sublist_squeeze_lines:
  assumes "\<not> sublist m y" "10 \<notin> set m" "m \<noteq> []"
  shows "\<not> sublist m (squeeze_lines y)"
proof
  assume "sublist m (squeeze_lines y)"
  then have "\<exists>l\<in>set (squeeze y). sublist m l"
    unfolding squeeze_lines_def using assms(2,3) by (rule sublist_join_line)
  then obtain l where "l \<in> set (squeeze y)" "sublist m l" by blast
  then have "sublist m y"
    using squeeze_line_sublist by (blast intro: sublist_order.order_trans)
  with assms(1) show False by simp
qed

lemma no_marker_squeeze_lines: "no_marker y \<Longrightarrow> no_marker (squeeze_lines y)"
  unfolding no_marker_def
  by (simp add: not_sublist_squeeze_lines marker_facts)

lemma no_marker_truncate: "no_marker x \<Longrightarrow> no_marker (truncate x)"
proof -
  assume nm: "no_marker x"
  have "no_marker (take 1000 x)"
    using nm by (rule no_marker_sublist) simp
  then have "no_marker (take 1000 x @ ustr ''...'')"
    unfolding no_marker_def
    by (simp add: not_sublist_append marker_facts)
  with nm show ?thesis by (simp add: truncate_def)
qed

text \<open>
  Every step after the first keeps the text tidy, and truncating twice is truncating
  once.
\<close>

lemma tidy_squeeze_lines: "tidy (squeeze_lines y)"
  unfolding tidy_def squeeze_lines_def using squeeze_tidy by blast

lemma tidy_strip: "tidy s \<Longrightarrow> str_strip s = s"
proof -
  assume "tidy s"
  then obtain ls where ls: "s = str_join [10] ls" "\<forall>l\<in>set ls. tidy_line l"
    by (auto simp: tidy_def)
  show ?thesis
  proof (cases "ls = []")
    case True
    with ls show ?thesis by (simp add: str_strip_def)
  next
    case False
    with ls show ?thesis by (simp add: strip_join_tidy)
  qed
qed

lemma tidy_squeeze: "tidy s \<Longrightarrow> squeeze_lines s = s"
  by (auto simp: tidy_def squeeze_lines_def squeeze_join_tidy)

lemma tidy_line_ellipsis:
  assumes "tidy_line l" "prefix p l"
  shows "tidy_line (p @ ustr ''...'')"
proof -
  have sp: "\<not> is_space 46" by (simp add: is_space_def)
  from assms(2) have "set p \<subseteq> set l" by (rule set_mono_prefix)
  with assms(1) have nl: "10 \<notin> set (p @ ustr ''...'')"
    by (auto simp: tidy_line_def ustr_def)
  have hd: "\<not> is_space (hd (p @ ustr ''...''))"
  proof (cases p)
    case Nil
    then show ?thesis using sp by (simp add: ustr_def)
  next
    case (Cons a p')
    with assms(2) have "hd l = a" by (cases l) simp_all
    with assms(1) Cons show ?thesis by (simp add: tidy_line_def)
  qed
  have "\<not> is_space (last (p @ ustr ''...''))" using sp by (simp add: ustr_def)
  with nl hd show ?thesis by (simp add: tidy_line_def ustr_def)
qed

lemma tidy_truncate: "tidy x \<Longrightarrow> tidy (truncate x)"
proof (cases "length x > 1000")
  case False
  assume "tidy x"
  with False show ?thesis by (simp add: truncate_def)
next
  case True
  assume "tidy x"
  then obtain ls where ls: "x = str_join [10] ls" "\<forall>l\<in>set ls. tidy_line l"
    by (auto simp: tidy_def)
  from True ls(1) have "ls \<noteq> []" by auto
  then obtain ls' p l rest where
    h: "ls = ls' @ l # rest" "prefix p l"
       "take 1000 (str_join [10] ls) = str_join [10] (ls' @ [p])"
    using take_join [of ls 1000 10] by blast
  from h(1) ls(2) have "tidy_line l" by simp
  then have tp: "tidy_line (p @ ustr ''...'')" using h(2) by (rule tidy_line_ellipsis)
  have "truncate x = str_join [10] (ls' @ [p @ ustr ''...''])"
    using True by (simp add: truncate_def ls(1) h(3) join_snoc_append)
  moreover have "\<forall>l\<in>set (ls' @ [p @ ustr ''...'']). tidy_line l"
    using tp ls(2) h(1) by auto
  ultimately show ?thesis unfolding tidy_def by blast
qed

lemma truncate_truncate: "truncate (truncate x) = truncate x"
  by (simp add: truncate_def ustr_def)

text \<open>
  C3: cleaning a cleaned body gives the same body. The result of the first pass holds no
  edit marker, consists of tidy lines, and its truncation (1000 characters and the
  ellipsis) is truncated to itself, so no second ellipsis is appended.
\<close>

theorem clean_comment_body_idempotent:
  "clean_comment_body (clean_comment_body body) = clean_comment_body body \<and>
   \<not> str_contains (ustr ''EDIT:'') (clean_comment_body body) \<and>
   \<not> str_contains (ustr ''Edit:'') (clean_comment_body body)"
proof -
  let ?x = "squeeze_lines (remove_edits (str_strip body))"
  let ?out = "truncate ?x"
  have out: "clean_comment_body body = ?out" by (rule clean_steps)
  have t: "tidy ?out" by (rule tidy_truncate) (rule tidy_squeeze_lines)
  have nm: "no_marker ?out"
    by (intro no_marker_truncate no_marker_squeeze_lines no_marker_remove_edits)
  have "clean_comment_body ?out = truncate (squeeze_lines (remove_edits (str_strip ?out)))"
    by (rule clean_steps)
  also have "\<dots> = truncate (squeeze_lines (remove_edits ?out))"
    using t by (simp only: tidy_strip)
  also have "\<dots> = truncate (squeeze_lines ?out)"
    using nm by (simp only: remove_edits_id)
  also have "\<dots> = truncate ?out"
    using t by (simp only: tidy_squeeze)
  also have "\<dots> = ?out" by (rule truncate_truncate)
  finally have idem: "clean_comment_body ?out = ?out" .
  from nm have "\<not> str_contains (ustr ''EDIT:'') ?out \<and> \<not> str_contains (ustr ''Edit:'') ?out"
    by (simp add: no_marker_def str_contains_def)
  with idem show ?thesis unfolding out by simp
qed

subsection \<open>Length of a cleaned body\<close>

text \<open>
  C10: the cleaned body has at most 1003 characters, and one of more than 1000 characters
  is a 1000-character text followed by the three-character ellipsis.
\<close>

theorem clean_comment_body_length:
  "length (clean_comment_body body) \<le> 1003 \<and>
   (length (clean_comment_body body) \<le> 1000 \<or>
    (\<exists>t. clean_comment_body body = t @ ustr ''...'' \<and> length t = 1000))"
  by (auto simp: clean_comment_body_def Let_def slice_to_def ustr_def)

section \<open>Properties of the story generator\<close>

subsection \<open>The derived title\<close>

lemma slice_to_minus_one_snoc: "slice_to (- 1) (t @ [c]) = t"
  by (simp add: slice_to_def)

text \<open>
  C8: for a title that ends in a question mark, the story title is the prefix of the
  style, a space and the title without that question mark; for any other title it is the
  prefix, a colon and a space, and the title unchanged. A style without an entry in
  \<open>style_prefix\<close> has the prefix of the style engaging. The comedy example of the claim
  is the last conjunct, the engaging example the witness.
\<close>

theorem generate_story_title_spec:
  "generate_story_title (t @ ustr ''?'') style =
     (case map_of style_prefix style of Some p \<Rightarrow> p | None \<Rightarrow> ustr ''The Story of'')
       @ ustr '' '' @ t \<and>
   (\<not> suffix (ustr ''?'') title \<longrightarrow>
      generate_story_title title style =
        (case map_of style_prefix style of Some p \<Rightarrow> p | None \<Rightarrow> ustr ''The Story of'')
          @ ustr '': '' @ title) \<and>
   generate_story_title (ustr ''What's the best advice you've ever gotten?'') (ustr ''comedy'')
     = ustr ''The Hilarious Tale of What's the best advice you've ever gotten''"
proof -
  have q: "ustr ''?'' = [63]" by (simp add: ustr_def)
  have q1: "generate_story_title (t @ ustr ''?'') style =
     (case map_of style_prefix style of Some p \<Rightarrow> p | None \<Rightarrow> ustr ''The Story of'')
       @ ustr '' '' @ t" for t style
    by (simp add: generate_story_title_def Let_def q slice_to_minus_one_snoc)
  have q2: "\<not> suffix (ustr ''?'') title \<longrightarrow>
      generate_story_title title style =
        (case map_of style_prefix style of Some p \<Rightarrow> p | None \<Rightarrow> ustr ''The Story of'')
          @ ustr '': '' @ title"
    by (simp add: generate_story_title_def Let_def)
  have c: "map_of style_prefix (ustr ''comedy'') = Some (ustr ''The Hilarious Tale of'')"
    by (simp add: style_prefix_def ustr_def)
  have s: "ustr ''What's the best advice you've ever gotten?''
             = ustr ''What's the best advice you've ever gotten'' @ ustr ''?''"
    by (simp add: ustr_def)
  have q3: "generate_story_title (ustr ''What's the best advice you've ever gotten?'') (ustr ''comedy'')
     = ustr ''The Hilarious Tale of What's the best advice you've ever gotten''"
  proof -
    have h: "generate_story_title
               (ustr ''What's the best advice you've ever gotten'' @ ustr ''?'') (ustr ''comedy'')
             = ustr ''The Hilarious Tale of'' @ ustr '' '' @
               ustr ''What's the best advice you've ever gotten''"
      using q1 [of "ustr ''What's the best advice you've ever gotten''" "ustr ''comedy''"]
      by (simp only: c option.simps)
    then show ?thesis by (simp add: ustr_def)
  qed
  from q1 q2 q3 show ?thesis by blast
qed

theorem generate_story_title_spec_witness:
  "\<not> suffix (ustr ''?'') (ustr ''Tell me about your day'') \<and>
   generate_story_title (ustr ''Tell me about your day'') (ustr ''engaging'')
     = ustr ''The Story of: Tell me about your day''"
proof -
  have ns: "\<not> suffix (ustr ''?'') (ustr ''Tell me about your day'')"
    by (simp add: ustr_def suffix_to_prefix)
  have e: "map_of style_prefix (ustr ''engaging'') = Some (ustr ''The Story of'')"
    by (simp add: style_prefix_def ustr_def)
  from ns generate_story_title_spec [of "[]" "ustr ''engaging''" "ustr ''Tell me about your day''"]
  have "generate_story_title (ustr ''Tell me about your day'') (ustr ''engaging'')
        = (case map_of style_prefix (ustr ''engaging'') of Some p \<Rightarrow> p
           | None \<Rightarrow> ustr ''The Story of'') @ ustr '': '' @ ustr ''Tell me about your day''"
    by blast
  then have "generate_story_title (ustr ''Tell me about your day'') (ustr ''engaging'')
     = ustr ''The Story of'' @ ustr '': '' @ ustr ''Tell me about your day''"
    by (simp only: e option.simps)
  then have "generate_story_title (ustr ''Tell me about your day'') (ustr ''engaging'')
     = ustr ''The Story of: Tell me about your day''"
    by (simp add: ustr_def)
  with ns show ?thesis by simp
qed

subsection \<open>One call of the generation service\<close>

lemma generate_from_post_error:
  assumes "completion env (story_request client cfg post comments style mn mx) = Inl e"
  shows "generate_from_post env client cfg post comments style mn mx w =
           (Inl e, \<lparr> sent = sent w @ [story_request client cfg post comments style mn mx],
                      clock_reads = clock_reads w + 1 \<rparr>)"
  using assms
  by (simp add: generate_from_post_def generate_story_def generate_completion_def
      story_request_def Let_def)

lemma generate_from_post_ok:
  assumes "completion env (story_request client cfg post comments style mn mx) = Inr text"
  shows "\<exists>story. generate_from_post env client cfg post comments style mn mx w =
           (Inr story, \<lparr> sent = sent w @ [story_request client cfg post comments style mn mx],
                         clock_reads = clock_reads w + 4 \<rparr>) \<and>
           story_style story = style \<and>
           story_content story = str_strip text \<and>
           story_title story = generate_story_title (post_title post) style \<and>
           source_post story = post_snapshot post \<and>
           source_comments story = map comment_preview comments"
  using assms
  by (simp add: generate_from_post_def generate_story_def generate_completion_def
      story_request_def Let_def)

lemma sent_generate_from_post:
  "sent (snd (generate_from_post env client cfg post comments style mn mx w)) =
     sent w @ [story_request client cfg post comments style mn mx]"
proof (cases "completion env (story_request client cfg post comments style mn mx)")
  case (Inl e)
  then show ?thesis by (simp add: generate_from_post_error)
next
  case (Inr reply)
  from generate_from_post_ok [OF Inr, of w] show ?thesis by auto
qed

lemma mystery_unknown: "map_of STORY_STYLES (ustr ''mystery'') = None"
  by (simp add: STORY_STYLES_def ustr_def)

text \<open>
  C1: \<open>build_story_prompt\<close> replaces an unknown style by engaging in the prompt, but
  \<open>generate_from_post\<close> stores the style it was called with: for the requested style
  mystery the story's style is mystery, which is not one of the six styles.
\<close>

theorem generate_from_post_keeps_unknown_style:
  "\<exists>story w.
     generate_from_post (ex_env (Inr (ustr ''Once upon a time at the office.'')))
       OpenAIProvider ex_cfg ex_post ex_comments (ustr ''mystery'') None None ex_world
       = (Inr story, w) \<and>
     story_style story = ustr ''mystery'' \<and>
     ustr ''mystery'' \<notin> set (map fst STORY_STYLES) \<and>
     prompt_style (build_story_prompt ex_cfg ex_post ex_comments (ustr ''mystery'') None None)
       = ustr ''engaging''"
proof -
  have c: "completion (ex_env (Inr (ustr ''Once upon a time at the office.'')))
             (story_request OpenAIProvider ex_cfg ex_post ex_comments (ustr ''mystery'') None None)
           = Inr (ustr ''Once upon a time at the office.'')"
    by (simp add: ex_env_def)
  from generate_from_post_ok [OF c, of ex_world]
  obtain story where
    "generate_from_post (ex_env (Inr (ustr ''Once upon a time at the office.'')))
       OpenAIProvider ex_cfg ex_post ex_comments (ustr ''mystery'') None None ex_world
       = (Inr story, \<lparr> sent = sent ex_world @
             [story_request OpenAIProvider ex_cfg ex_post ex_comments (ustr ''mystery'') None None],
           clock_reads = clock_reads ex_world + 4 \<rparr>)"
    and "story_style story = ustr ''mystery''"
    by blast
  moreover have "ustr ''mystery'' \<notin> set (map fst STORY_STYLES)"
    by (simp add: STORY_STYLES_def ustr_def)
  moreover have "prompt_style (build_story_prompt ex_cfg ex_post ex_comments (ustr ''mystery'') None None)
       = ustr ''engaging''"
    by (simp add: build_story_prompt_def Let_def mystery_unknown)
  ultimately show ?thesis by blast
qed

text \<open>
  C7: when the generation service raises for the request of a call of
  \<open>generate_from_post\<close>, the call raises that same exception, and exactly one request was
  sent, by the client the generator was built with: no second attempt and no other
  provider.
\<close>

theorem generate_from_post_error_propagates:
  assumes "completion env
             (make_request client
                (prompt_text client (build_story_prompt cfg post comments style mn mx)) 1500)
           = Inl e"
  shows "\<exists>w'. generate_from_post env client cfg post comments style mn mx w = (Inl e, w') \<and>
               sent w' = sent w @
                 [make_request client
                    (prompt_text client (build_story_prompt cfg post comments style mn mx)) 1500]"
  using assms generate_from_post_error [of env client cfg post comments style mn mx e w]
  by (simp add: story_request_def)

theorem generate_from_post_error_propagates_witness:
  "completion (ex_env (Inl (ustr ''rate limit exceeded'')))
     (make_request AnthropicProvider
        (prompt_text AnthropicProvider
           (build_story_prompt ex_cfg ex_post ex_comments (ustr ''comedy'') None None)) 1500)
     = Inl (ustr ''rate limit exceeded'') \<and>
   fst (generate_from_post (ex_env (Inl (ustr ''rate limit exceeded''))) AnthropicProvider
          ex_cfg ex_post ex_comments (ustr ''comedy'') None None ex_world)
     = Inl (ustr ''rate limit exceeded'') \<and>
   length (sent (snd (generate_from_post (ex_env (Inl (ustr ''rate limit exceeded'')))
          AnthropicProvider ex_cfg ex_post ex_comments (ustr ''comedy'') None None ex_world)))
     = 1"
proof -
  have c: "completion (ex_env (Inl (ustr ''rate limit exceeded'')))
     (make_request AnthropicProvider
        (prompt_text AnthropicProvider
           (build_story_prompt ex_cfg ex_post ex_comments (ustr ''comedy'') None None)) 1500)
     = Inl (ustr ''rate limit exceeded'')"
    by (simp add: ex_env_def)
  from generate_from_post_error_propagates [OF c, of ex_world]
  obtain w' where
    "generate_from_post (ex_env (Inl (ustr ''rate limit exceeded''))) AnthropicProvider
          ex_cfg ex_post ex_comments (ustr ''comedy'') None None ex_world
       = (Inl (ustr ''rate limit exceeded''), w')"
    and "length (sent w') = 1"
    by (auto simp: ex_world_def)
  with c show ?thesis by simp
qed

subsection \<open>The prompt handed to the provider\<close>

lemma add_comments_prefix: "\<exists>rest. add_comments p i cs = p @ rest"
proof (induction cs arbitrary: p i)
  case Nil
  then show ?case by simp
next
  case (Cons c cs)
  obtain rest where
    "add_comments (p @ [10] @ str_int i @ ustr ''. '' @
        (if length (comment_body c) > 500 then slice_to 500 (comment_body c) @ ustr ''...''
         else comment_body c) @ [10]) (i + 1) cs
     = (p @ [10] @ str_int i @ ustr ''. '' @
        (if length (comment_body c) > 500 then slice_to 500 (comment_body c) @ ustr ''...''
         else comment_body c) @ [10]) @ rest"
    using Cons.IH by blast
  then show ?case by (simp add: Let_def)
qed

lemma hd_add_comments:
  assumes "p \<noteq> []"
  shows "hd (add_comments p i cs) = hd p \<and> add_comments p i cs \<noteq> []"
proof -
  obtain rest where "add_comments p i cs = p @ rest"
    using add_comments_prefix by blast
  with assms show ?thesis by simp
qed

lemma hd_build_user_prompt: "hd (build_user_prompt post comments style a b) = 84"
proof -
  let ?p = "ustr ''Transform this Reddit post and its top comments into a '' @ style @
            ustr '' story.'' @ [10, 10] @
            ustr ''**Reddit Post from r/'' @ post_subreddit post @ ustr '':**'' @ [10] @
            [34] @ post_title post @ [34] @ [10, 10] @
            ustr ''**Top Comments from the community:**'' @ [10]"
  have ne: "?p \<noteq> []" by (simp add: ustr_def)
  have h: "hd ?p = 84" by (simp add: ustr_def)
  from hd_add_comments [OF ne, of 1 comments] h
  have "hd (add_comments ?p 1 comments) = 84" and "add_comments ?p 1 comments \<noteq> []"
    by simp_all
  then show ?thesis
    by (simp add: build_user_prompt_def Let_def)
qed

lemma hd_build_system_message: "hd (build_system_message style) = 89"
  by (simp add: build_system_message_def ustr_def)

lemma system_message_not_user_prompt:
  "system_message (build_story_prompt cfg post comments style mn mx)
     \<noteq> user_prompt (build_story_prompt cfg post comments style mn mx)"
proof
  assume "system_message (build_story_prompt cfg post comments style mn mx)
     = user_prompt (build_story_prompt cfg post comments style mn mx)"
  then have "hd (system_message (build_story_prompt cfg post comments style mn mx))
     = hd (user_prompt (build_story_prompt cfg post comments style mn mx))" by simp
  then show False
    by (simp add: build_story_prompt_def Let_def hd_build_system_message hd_build_user_prompt)
qed

lemma system_message_not_fixed:
  "system_message (build_story_prompt cfg post comments style mn mx)
     \<noteq> ustr ''You are a creative storyteller who writes engaging narratives.''"
  by (simp add: build_story_prompt_def Let_def build_system_message_def ustr_def)

text \<open>
  C5, as the claim states it, fails for the chat-style provider: the request it sends
  holds the provider's own fixed system text and the user prompt, and no message of the
  request has the assembled system message as its content.
\<close>

theorem openai_system_message_not_sent:
  "\<exists>request.
     sent (snd (generate_from_post (ex_env (Inr (ustr ''Once upon a time at the office.'')))
                  OpenAIProvider ex_cfg ex_post ex_comments (ustr ''comedy'') None None ex_world))
       = [request] \<and>
     system_message (build_story_prompt ex_cfg ex_post ex_comments (ustr ''comedy'') None None)
       \<notin> snd ` set (req_messages request)"
proof -
  let ?r = "story_request OpenAIProvider ex_cfg ex_post ex_comments (ustr ''comedy'') None None"
  have "sent (snd (generate_from_post (ex_env (Inr (ustr ''Once upon a time at the office.'')))
                  OpenAIProvider ex_cfg ex_post ex_comments (ustr ''comedy'') None None ex_world))
       = [?r]"
    by (simp add: sent_generate_from_post ex_world_def)
  moreover have "system_message (build_story_prompt ex_cfg ex_post ex_comments (ustr ''comedy'') None None)
       \<notin> snd ` set (req_messages ?r)"
    using system_message_not_user_prompt [of ex_cfg ex_post ex_comments "ustr ''comedy''" None None]
      system_message_not_fixed [of ex_cfg ex_post ex_comments "ustr ''comedy''" None None]
    by (simp add: story_request_def prompt_text_def)
  ultimately show ?thesis by blast
qed

text \<open>
  C5, amended: every call of \<open>generate_from_post\<close> sends exactly one request, by the
  client of the generator and with a ceiling of 1500 tokens. For the chat-style provider
  its messages are the provider's fixed system text and, as the user message, the user
  prompt alone; for the two other providers its single user message is the system
  message, a blank line and the user prompt.
\<close>

theorem generate_from_post_request:
  "\<exists>request.
     sent (snd (generate_from_post env client cfg post comments style mn mx w))
       = sent w @ [request] \<and>
     req_provider request = client \<and>
     req_max_tokens request = 1500 \<and>
     req_messages request =
       (let prompt = build_story_prompt cfg post comments style mn mx
        in if client = OpenAIProvider
           then [(ustr ''system'',
                  ustr ''You are a creative storyteller who writes engaging narratives.''),
                 (ustr ''user'', user_prompt prompt)]
           else [(ustr ''user'', system_message prompt @ [10, 10] @ user_prompt prompt)])"
proof -
  let ?r = "story_request client cfg post comments style mn mx"
  have "sent (snd (generate_from_post env client cfg post comments style mn mx w))
          = sent w @ [?r]"
    by (rule sent_generate_from_post)
  moreover have "req_provider ?r = client" "req_max_tokens ?r = 1500"
    by (cases client; simp add: story_request_def)+
  moreover have "req_messages ?r =
       (let prompt = build_story_prompt cfg post comments style mn mx
        in if client = OpenAIProvider
           then [(ustr ''system'',
                  ustr ''You are a creative storyteller who writes engaging narratives.''),
                 (ustr ''user'', user_prompt prompt)]
           else [(ustr ''user'', system_message prompt @ [10, 10] @ user_prompt prompt)])"
    by (cases client; simp add: story_request_def prompt_text_def Let_def)
  ultimately show ?thesis by blast
qed

subsection \<open>The batch over the posts of a subreddit\<close>

lemma process_posts_sources:
  "process_posts env client cfg style posts stories w = (stories', w') \<Longrightarrow>
     map source_post stories' =
       map source_post stories @
       map post_snapshot (filter (yields_story env client cfg style) posts)"
proof (induction posts arbitrary: stories w)
  case Nil
  then show ?case by simp
next
  case (Cons post rest)
  show ?case
  proof (cases "post_num_comments post < 5")
    case True
    with Cons show ?thesis by (simp add: yields_story_def)
  next
    case enough: False
    show ?thesis
    proof (cases "get_top_comments cfg (forest env) (post_id post) (default_comment_limit cfg)")
      case (Inl e)
      with enough Cons show ?thesis by (simp add: yields_story_def)
    next
      case (Inr comments)
      show ?thesis
      proof (cases "length comments < 3")
        case True
        with enough Inr Cons show ?thesis by (simp add: yields_story_def)
      next
        case many: False
        show ?thesis
        proof (cases "completion env (story_request client cfg post comments style None None)")
          case failed: (Inl e)
          from generate_from_post_error [OF failed, of w]
          have "process_posts env client cfg style (post # rest) stories w
                = process_posts env client cfg style rest stories
                    \<lparr> sent = sent w @ [story_request client cfg post comments style None None],
                      clock_reads = clock_reads w + 1 \<rparr>"
            using enough Inr many by simp
          with Cons.prems have "process_posts env client cfg style rest stories
                    \<lparr> sent = sent w @ [story_request client cfg post comments style None None],
                      clock_reads = clock_reads w + 1 \<rparr> = (stories', w')"
            by simp
          from Cons.IH [OF this] enough Inr many failed show ?thesis
            by (simp add: yields_story_def)
        next
          case ok: (Inr reply)
          from generate_from_post_ok [OF ok, of w]
          obtain story where
            g: "generate_from_post env client cfg post comments style None None w =
                  (Inr story,
                   \<lparr> sent = sent w @ [story_request client cfg post comments style None None],
                     clock_reads = clock_reads w + 4 \<rparr>)"
            and sp: "source_post story = post_snapshot post"
            by blast
          have "process_posts env client cfg style (post # rest) stories w
                = process_posts env client cfg style rest (stories @ [story])
                    \<lparr> sent = sent w @ [story_request client cfg post comments style None None],
                      clock_reads = clock_reads w + 4 \<rparr>"
            using enough Inr many g by simp
          with Cons.prems have "process_posts env client cfg style rest (stories @ [story])
                    \<lparr> sent = sent w @ [story_request client cfg post comments style None None],
                      clock_reads = clock_reads w + 4 \<rparr> = (stories', w')"
            by simp
          from Cons.IH [OF this] enough Inr many ok sp show ?thesis
            by (simp add: yields_story_def)
        qed
      qed
    qed
  qed
qed

lemma yields_story_iff:
  "yields_story env client cfg style post \<longleftrightarrow>
     5 \<le> post_num_comments post \<and>
     (\<exists>comments reply.
        get_top_comments cfg (forest env) (post_id post) (default_comment_limit cfg)
          = Inr comments \<and>
        3 \<le> length comments \<and>
        completion env (story_request client cfg post comments style None None) = Inr reply)"
  by (auto simp: yields_story_def split: sum.splits)

text \<open>
  C6: when the posts are fetched, \<open>generate_from_subreddit\<close> returns normally whatever
  happens for the single posts, and its stories are, in order, those of the posts that
  yield one: a post with fewer than 5 comments, a post with fewer than 3 fetched comments
  and a post whose comment fetch or generation raised contribute nothing and do not stop
  the posts after them. The witness is the batch over five posts of which two have fewer
  than 5 comments and one has only two valid comments: exactly two stories, those of the
  two remaining posts.
\<close>

theorem generate_from_subreddit_skips:
  assumes "get_top_posts (listing env) subreddit post_limit time_filter = Inr posts"
  shows "\<exists>stories w'.
           generate_from_subreddit env client cfg subreddit post_limit time_filter style w
             = (Inr stories, w') \<and>
           map source_post stories =
             map post_snapshot (filter (yields_story env client cfg style) posts) \<and>
           length stories = length (filter (yields_story env client cfg style) posts) \<and>
           (\<forall>post. yields_story env client cfg style post \<longleftrightarrow>
              5 \<le> post_num_comments post \<and>
              (\<exists>comments reply.
                 get_top_comments cfg (forest env) (post_id post) (default_comment_limit cfg)
                   = Inr comments \<and>
                 3 \<le> length comments \<and>
                 completion env
                   (make_request client
                      (prompt_text client
                         (build_story_prompt cfg post comments style None None)) 1500)
                   = Inr reply))"
proof -
  obtain stories w' where p: "process_posts env client cfg style posts [] w = (stories, w')"
    by (cases "process_posts env client cfg style posts [] w") auto
  from process_posts_sources [OF p]
  have m: "map source_post stories =
             map post_snapshot (filter (yields_story env client cfg style) posts)"
    by simp
  then have "length (map source_post stories) =
             length (map post_snapshot (filter (yields_story env client cfg style) posts))"
    by simp
  then have l: "length stories = length (filter (yields_story env client cfg style) posts)"
    by simp
  have g: "generate_from_subreddit env client cfg subreddit post_limit time_filter style w
          = (Inr stories, w')"
    using assms p by (simp add: generate_from_subreddit_def)
  have y: "\<forall>post. yields_story env client cfg style post \<longleftrightarrow>
              5 \<le> post_num_comments post \<and>
              (\<exists>comments reply.
                 get_top_comments cfg (forest env) (post_id post) (default_comment_limit cfg)
                   = Inr comments \<and>
                 3 \<le> length comments \<and>
                 completion env
                   (make_request client
                      (prompt_text client
                         (build_story_prompt cfg post comments style None None)) 1500)
                   = Inr reply)"
    by (simp add: yields_story_iff story_request_def)
  from g m l y show ?thesis by blast
qed

lemma ex_two_valid_filter:
  "filter (is_valid_comment ex_cfg) ex_two_valid
     = [ex_comment (ustr ''d1'') ex_body 500, ex_comment (ustr ''d4'') ex_body 275]"
  by (simp add: is_valid_comment_def ex_two_valid_def ex_defs eval_defs BOT_ACCOUNTS_def)

lemma ex_two_valid_count:
  "get_top_comments ex_cfg (forest ex_batch_env) (ustr ''p3'') 5
     = Inr (map to_comment
              [ex_comment (ustr ''d1'') ex_body 500, ex_comment (ustr ''d4'') ex_body 275])"
  by (simp add: get_top_comments_def ex_batch_env_def ex_two_valid_filter
      sort_by_score_desc_def ex_comment_def slice_to_def)

lemma ex_other_posts_comments:
  "pid \<noteq> ustr ''p3'' \<Longrightarrow>
     get_top_comments ex_cfg (forest ex_batch_env) pid 5
       = Inr (map to_comment
                [ex_comment (ustr ''c1'') ex_body 500,
                 ex_comment (ustr ''c3'') ex_body 350,
                 ex_comment (ustr ''c2'') ex_body 275])"
  by (simp add: get_top_comments_def ex_batch_env_def ex_three_valid ex_three_sorted slice_to_def)

lemma ex_batch_posts:
  "get_top_posts (listing ex_batch_env) (ustr ''AskReddit'') 5 (ustr ''day'')
     = Inr (map (to_post (ustr ''AskReddit'')) ex_five)"
  by (simp add: get_top_posts_def ex_batch_env_def ex_five_def ex_submission_def ustr_def)

lemma ex_batch_yield:
  "filter (yields_story ex_batch_env OpenAIProvider ex_cfg (ustr ''engaging''))
     (map (to_post (ustr ''AskReddit'')) ex_five)
   = [to_post (ustr ''AskReddit'') (ex_submission (ustr ''p4'') 50),
      to_post (ustr ''AskReddit'') (ex_submission (ustr ''p5'') 60)]"
proof -
  have ids: "ustr ''p4'' \<noteq> ustr ''p3''" "ustr ''p5'' \<noteq> ustr ''p3''"
    by (simp_all add: ustr_def)
  have lim: "default_comment_limit ex_cfg = 5" by (simp add: ex_cfg_def)
  have c: "completion ex_batch_env r = Inr (ustr ''Once upon a time at the office.'')" for r
    by (simp add: ex_batch_env_def)
  have n: "post_num_comments (to_post a (ex_submission sid k)) = k"
          "post_id (to_post a (ex_submission sid k)) = sid" for a sid k
    by (simp_all add: to_post_def ex_submission_def)
  show ?thesis
    by (simp add: ex_five_def yields_story_def n lim c ids ex_two_valid_count
        ex_other_posts_comments)
qed

theorem generate_from_subreddit_skips_witness:
  "get_top_posts (listing ex_batch_env) (ustr ''AskReddit'') 5 (ustr ''day'')
     = Inr (map (to_post (ustr ''AskReddit'')) ex_five) \<and>
   map post_num_comments (map (to_post (ustr ''AskReddit'')) ex_five) = [3, 4, 40, 50, 60] \<and>
   length (filter (is_valid_comment ex_cfg) ex_two_valid) = 2 \<and>
   (\<exists>stories w'.
      generate_from_subreddit ex_batch_env OpenAIProvider ex_cfg (ustr ''AskReddit'') 5
        (ustr ''day'') (ustr ''engaging'') ex_world = (Inr stories, w') \<and>
      length stories = 2 \<and>
      map (\<lambda>story. sp_id (source_post story)) stories = [ustr ''p4'', ustr ''p5''])"
proof -
  note posts = ex_batch_posts
  have nums: "map post_num_comments (map (to_post (ustr ''AskReddit'')) ex_five)
                = [3, 4, 40, 50, 60]"
    by (simp add: ex_five_def to_post_def ex_submission_def)
  have two: "length (filter (is_valid_comment ex_cfg) ex_two_valid) = 2"
    by (simp add: ex_two_valid_filter)
  from generate_from_subreddit_skips [OF posts, of OpenAIProvider ex_cfg "ustr ''engaging''" ex_world]
  obtain stories w' where
    g: "generate_from_subreddit ex_batch_env OpenAIProvider ex_cfg (ustr ''AskReddit'') 5
          (ustr ''day'') (ustr ''engaging'') ex_world = (Inr stories, w')"
    and m: "map source_post stories =
              map post_snapshot
                (filter (yields_story ex_batch_env OpenAIProvider ex_cfg (ustr ''engaging''))
                   (map (to_post (ustr ''AskReddit'')) ex_five))"
    and l: "length stories =
              length (filter (yields_story ex_batch_env OpenAIProvider ex_cfg (ustr ''engaging''))
                        (map (to_post (ustr ''AskReddit'')) ex_five))"
    by blast
  from l have l2: "length stories = 2" by (simp add: ex_batch_yield)
  have "map (\<lambda>story. sp_id (source_post story)) stories
          = map sp_id (map source_post stories)" by simp
  also have "\<dots> = [ustr ''p4'', ustr ''p5'']"
    unfolding m ex_batch_yield
    by (simp add: post_snapshot_def to_post_def ex_submission_def)
  finally have ids: "map (\<lambda>story. sp_id (source_post story)) stories
                       = [ustr ''p4'', ustr ''p5'']" .
  have "\<exists>stories w'.
      generate_from_subreddit ex_batch_env OpenAIProvider ex_cfg (ustr ''AskReddit'') 5
        (ustr ''day'') (ustr ''engaging'') ex_world = (Inr stories, w') \<and>
      length stories = 2 \<and>
      map (\<lambda>story. sp_id (source_post story)) stories = [ustr ''p4'', ustr ''p5'']"
    using g l2 ids by (intro exI [of _ stories] exI [of _ w'] conjI)
  with posts nums two show ?thesis by (intro conjI)
qed

end
